theory Spec2Isabelle
  imports
    Complex_Main
    "HOL-Library.Word"
    "HOL-Library.Char_ord"
    "HOL-Library.List_Lexorder"
    "HOL-Library.Multiset"
begin

unbundle bit_operations_syntax

section \<open>Data model of search.go\<close>

text \<open>
  Go strings are byte sequences, and \<^typ>\<open>string\<close> is a list of 8-bit characters, so a Go
  \<open>string\<close> is a \<^typ>\<open>string\<close> and a Go \<open>byte\<close> is a \<^typ>\<open>char\<close>. Go's \<open>int\<close> is modelled by
  \<^typ>\<open>int\<close>: the code only compares and prints these values, it never computes with them.
\<close>

text \<open>
  A \<open>float64\<close> as far as the code looks at it: the code only compares coordinates with
  constants, so a value is a finite number, an infinity or NaN. Negative zero compares as
  zero and is not kept apart.
\<close>

datatype float64 = Finite real | PosInf | NegInf | NaN

text \<open>Go's \<open><\<close> on \<open>float64\<close>: every comparison with NaN is false.\<close>

fun flt :: "float64 \<Rightarrow> float64 \<Rightarrow> bool" where
  "flt NaN _ = False"
| "flt _ NaN = False"
| "flt (Finite a) (Finite b) = (a < b)"
| "flt (Finite _) PosInf = True"
| "flt (Finite _) NegInf = False"
| "flt PosInf _ = False"
| "flt NegInf NegInf = False"
| "flt NegInf _ = True"

text \<open>Go's \<open>></\<close> on \<open>float64\<close>.\<close>

definition fgt :: "float64 \<Rightarrow> float64 \<Rightarrow> bool" where
  "fgt a b = flt b a"

text \<open>\<open>validLatitudeLongitude\<close>, as written in the source.\<close>

definition validLatitudeLongitude :: "float64 \<Rightarrow> float64 \<Rightarrow> bool" where
  "validLatitudeLongitude latitude longitude =
     (\<not> (flt latitude (Finite (- 90)) \<or> fgt latitude (Finite 90) \<or>
         flt longitude (Finite (- 180)) \<or> fgt longitude (Finite 180)))"

text \<open>The names of the query elements.\<close>

definition searchIdentifierTerm :: string where "searchIdentifierTerm = ''term''"
definition searchIdentifierLimit :: string where "searchIdentifierLimit = ''limit''"
definition searchIdentifierOffset :: string where "searchIdentifierOffset = ''offset''"
definition searchIdentifierSort :: string where "searchIdentifierSort = ''sort''"
definition searchIdentifierCategory :: string where "searchIdentifierCategory = ''category_filter''"
definition searchIdentifierRadius :: string where "searchIdentifierRadius = ''radius_filter''"
definition searchIdentifierDeals :: string where "searchIdentifierDeals = ''deals_filter''"
definition searchIdentifierLocation :: string where "searchIdentifierLocation = ''location''"
definition searchIdentifierCoordinates :: string where "searchIdentifierCoordinates = ''ll''"
definition searchIdentifierCoordinatesHint :: string where "searchIdentifierCoordinatesHint = ''cll''"
definition searchIdentifierBounds :: string where "searchIdentifierBounds = ''bounds''"

text \<open>\<open>searchBitMask\<close> is \<open>uint8\<close>; the constants are \<open>1 << iota\<close> for iota from 0 to 7.\<close>

type_synonym searchBitMask = "8 word"

definition searchBitMaskTerm :: searchBitMask where "searchBitMaskTerm = push_bit 0 1"
definition searchBitMaskLimit :: searchBitMask where "searchBitMaskLimit = push_bit 1 1"
definition searchBitMaskOffset :: searchBitMask where "searchBitMaskOffset = push_bit 2 1"
definition searchBitMaskSort :: searchBitMask where "searchBitMaskSort = push_bit 3 1"
definition searchBitMaskCategory :: searchBitMask where "searchBitMaskCategory = push_bit 4 1"
definition searchBitMaskRadius :: searchBitMask where "searchBitMaskRadius = push_bit 5 1"
definition searchBitMaskDeals :: searchBitMask where "searchBitMaskDeals = push_bit 6 1"
definition searchBitMaskLocation :: searchBitMask where "searchBitMaskLocation = push_bit 7 1"

record searchQueryElement =
  Name :: string
  Value :: string

text \<open>The field \<open>mask\<close> of the source is \<open>mask_sq\<close> here.\<close>

record SearchQuery =
  queries :: "searchQueryElement list"
  mask_sq :: searchBitMask

text \<open>The zero value \<open>var q SearchQuery\<close>: no element, no flag.\<close>

definition zeroSearchQuery :: SearchQuery where
  "zeroSearchQuery = \<lparr>queries = [], mask_sq = 0\<rparr>"

definition SearchQuery_Append :: "SearchQuery \<Rightarrow> string \<Rightarrow> string \<Rightarrow> SearchQuery" where
  "SearchQuery_Append q name val = q\<lparr>queries := queries q @ [\<lparr>Name = name, Value = val\<rparr>]\<rparr>"

text \<open>
  Modelled from the spec: the declaration of the type \<open>Error\<close> is not among the sources (the
  \<open>Query\<close> methods build it from the name of the option and a message). Section 7 of the
  specification has two kinds of error; every \<open>return Error{...}\<close> under a test of the mask is
  a \<open>DuplicateOption\<close>, every other one an \<open>InvalidValue\<close>. The string is the first field, the
  name of the option; the message is left out.
\<close>

datatype Error = DuplicateOption string | InvalidValue string

section \<open>Library functions the options use\<close>

text \<open>\<open>strings.Replace(s, " ", "+", -1)\<close>: every space becomes a plus sign.\<close>

definition spacesToPlus :: "string \<Rightarrow> string" where
  "spacesToPlus s = map (\<lambda>c. if c = CHR '' '' then CHR ''+'' else c) s"

text \<open>\<open>strings.Join\<close>.\<close>

fun strings_Join :: "string list \<Rightarrow> string \<Rightarrow> string" where
  "strings_Join [] sep = []"
| "strings_Join [x] sep = x"
| "strings_Join (x # y # ys) sep = x @ sep @ strings_Join (y # ys) sep"

text \<open>\<open>strconv.Itoa\<close> and \<open>strconv.FormatInt(_, 10)\<close>: the decimal digits, with a minus sign.\<close>

definition digitChar :: "nat \<Rightarrow> char" where
  "digitChar d = ''0123456789'' ! d"

fun digitsOf :: "nat \<Rightarrow> string" where
  "digitsOf n = (if n < 10 then [digitChar n] else digitsOf (n div 10) @ [digitChar (n mod 10)])"

declare digitsOf.simps [simp del]

definition Itoa :: "int \<Rightarrow> string" where
  "Itoa i = (if i < 0 then CHR ''-'' # digitsOf (nat (- i)) else digitsOf (nat i))"

text \<open>The number that a string of decimal digits denotes, to say what \<open>Itoa\<close> prints.\<close>

definition decimalValue :: "string \<Rightarrow> nat" where
  "decimalValue s = foldl (\<lambda>a c. 10 * a + (of_char c - of_char (CHR ''0''))) 0 s"

section \<open>The search options\<close>

text \<open>
  Every \<open>Query\<close> method takes the container by pointer and returns an error or nil: the
  model returns the error, if any, and the container as the call leaves it, also when it
  fails. \<open>strconv.FormatFloat(x, 'f', -1, 64)\<close> is the parameter \<open>FormatFloat\<close>.
\<close>

type_synonym QueryResult = "Error option \<times> SearchQuery"

definition SearchCoordinates_Query ::
  "(float64 \<Rightarrow> string) \<Rightarrow> float64 \<Rightarrow> float64 \<Rightarrow> SearchQuery \<Rightarrow> QueryResult" where
  "SearchCoordinates_Query FormatFloat Latitude Longitude sq =
     (if mask_sq sq AND searchBitMaskLocation \<noteq> 0 then
        (Some (DuplicateOption ''SearchCoordinates''), sq)
      else if validLatitudeLongitude Latitude Longitude = False then
        (Some (InvalidValue ''SearchCoordinates''), sq)
      else
        let buffer = FormatFloat Latitude @ '','' @ FormatFloat Longitude;
            sq1 = SearchQuery_Append sq searchIdentifierCoordinates buffer
        in (None, sq1\<lparr>mask_sq := mask_sq sq1 OR searchBitMaskLocation\<rparr>))"

definition SearchLocation_Query :: "string \<Rightarrow> SearchQuery \<Rightarrow> QueryResult" where
  "SearchLocation_Query sl sq =
     (if mask_sq sq AND searchBitMaskLocation \<noteq> 0 then
        (Some (DuplicateOption ''SearchLocation''), sq)
      else
        let sq1 = SearchQuery_Append sq searchIdentifierLocation (spacesToPlus sl)
        in (None, sq1\<lparr>mask_sq := mask_sq sq1 OR searchBitMaskLocation\<rparr>))"

text \<open>The location is appended before the coordinates are checked, as in the source.\<close>

definition SearchLocationCoordinates_Query ::
  "(float64 \<Rightarrow> string) \<Rightarrow> string \<Rightarrow> float64 \<Rightarrow> float64 \<Rightarrow> SearchQuery \<Rightarrow> QueryResult" where
  "SearchLocationCoordinates_Query FormatFloat Location Latitude Longitude sq =
     (if mask_sq sq AND searchBitMaskLocation \<noteq> 0 then
        (Some (DuplicateOption ''SearchLocationCoordinates''), sq)
      else
        let sq1 = SearchQuery_Append sq searchIdentifierLocation (spacesToPlus Location)
        in if validLatitudeLongitude Latitude Longitude = False then
             (Some (InvalidValue ''SearchLocationCoordinates''), sq1)
           else
             let buffer = FormatFloat Latitude @ '','' @ FormatFloat Longitude;
                 sq2 = SearchQuery_Append sq1 searchIdentifierCoordinatesHint buffer
             in (None, sq2\<lparr>mask_sq := mask_sq sq2 OR searchBitMaskLocation\<rparr>))"

definition SearchBounds_Query ::
  "(float64 \<Rightarrow> string) \<Rightarrow> float64 \<Rightarrow> float64 \<Rightarrow> float64 \<Rightarrow> float64 \<Rightarrow> SearchQuery \<Rightarrow> QueryResult" where
  "SearchBounds_Query FormatFloat SWLatitude SWLongitude NELatitude NELongitude sq =
     (if mask_sq sq AND searchBitMaskLocation \<noteq> 0 then
        (Some (DuplicateOption ''SearchBounds''), sq)
      else if validLatitudeLongitude SWLatitude SWLongitude = False then
        (Some (InvalidValue ''SearchBounds''), sq)
      else if validLatitudeLongitude NELatitude NELongitude = False then
        (Some (InvalidValue ''SearchBounds''), sq)
      else
        let buffer = FormatFloat SWLatitude @ '','' @ FormatFloat SWLongitude @ ''|'' @
                     FormatFloat NELatitude @ '','' @ FormatFloat NELongitude;
            sq1 = SearchQuery_Append sq searchIdentifierBounds buffer
        in (None, sq1\<lparr>mask_sq := mask_sq sq1 OR searchBitMaskLocation\<rparr>))"

text \<open>
  \<open>SearchTerms\<close> is a slice, and the loop \<open>st[i] = strings.Replace(v, " ", "+", -1)\<close> writes
  into the array the caller's slice shares: the model returns the terms as the call leaves
  them, between the error and the container.
\<close>

definition SearchTerms_Query ::
  "string list \<Rightarrow> SearchQuery \<Rightarrow> Error option \<times> string list \<times> SearchQuery" where
  "SearchTerms_Query st sq =
     (if mask_sq sq AND searchBitMaskTerm \<noteq> 0 then
        (Some (DuplicateOption ''SearchTerms''), st, sq)
      else
        let st1 = map spacesToPlus st;
            sq1 = SearchQuery_Append sq searchIdentifierTerm (strings_Join st1 '','')
        in (None, st1, sq1\<lparr>mask_sq := mask_sq sq1 OR searchBitMaskTerm\<rparr>))"

definition SearchLimit_Query :: "int \<Rightarrow> SearchQuery \<Rightarrow> QueryResult" where
  "SearchLimit_Query sl sq =
     (if mask_sq sq AND searchBitMaskLimit \<noteq> 0 then
        (Some (DuplicateOption ''SearchLimit''), sq)
      else if sl < 0 \<or> sl > 20 then
        (Some (InvalidValue ''SearchLimit''), sq)
      else
        let sq1 = SearchQuery_Append sq searchIdentifierLimit (Itoa sl)
        in (None, sq1\<lparr>mask_sq := mask_sq sq1 OR searchBitMaskLimit\<rparr>))"

definition SearchOffset_Query :: "int \<Rightarrow> SearchQuery \<Rightarrow> QueryResult" where
  "SearchOffset_Query so sq =
     (if mask_sq sq AND searchBitMaskOffset \<noteq> 0 then
        (Some (DuplicateOption ''SearchOffset''), sq)
      else if so < 0 then
        (Some (InvalidValue ''SearchOffset''), sq)
      else
        let sq1 = SearchQuery_Append sq searchIdentifierOffset (Itoa so)
        in (None, sq1\<lparr>mask_sq := mask_sq sq1 OR searchBitMaskOffset\<rparr>))"

definition SearchSortBestMatched :: int where "SearchSortBestMatched = 0"
definition SearchSortDistance :: int where "SearchSortDistance = 1"
definition SearchSortHighestRated :: int where "SearchSortHighestRated = 2"

definition SearchSort_Query :: "int \<Rightarrow> SearchQuery \<Rightarrow> QueryResult" where
  "SearchSort_Query ss sq =
     (if mask_sq sq AND searchBitMaskSort \<noteq> 0 then
        (Some (DuplicateOption ''SearchSort''), sq)
      else if ss < SearchSortBestMatched \<or> ss > SearchSortHighestRated then
        (Some (InvalidValue ''SearchSort''), sq)
      else
        let sq1 = SearchQuery_Append sq searchIdentifierSort (Itoa ss)
        in (None, sq1\<lparr>mask_sq := mask_sq sq1 OR searchBitMaskSort\<rparr>))"

definition SearchCategoryActive :: int where "SearchCategoryActive = 0"
definition SearchCategoryTotal :: int where "SearchCategoryTotal = 8"

definition searchCategoryNames :: "string list" where
  "searchCategoryNames =
     [''active'', ''arts'', ''auto'', ''beautysvc'', ''golf'', ''nightlife'', ''bars'', ''restaurants'']"

text \<open>
  The loop of \<open>SearchCategories.Query\<close> over the categories from index \<open>i\<close> on: the buffer,
  or \<open>None\<close> where the source returns the error for an invalid category.
\<close>

fun categoriesLoop :: "int list \<Rightarrow> nat \<Rightarrow> string \<Rightarrow> string option" where
  "categoriesLoop [] i buffer = Some buffer"
| "categoriesLoop (v # vs) i buffer =
     (let buffer1 = (if i \<noteq> 0 then buffer @ '','' else buffer)
      in if v < SearchCategoryActive \<or> v \<ge> SearchCategoryTotal then None
         else categoriesLoop vs (i + 1) (buffer1 @ searchCategoryNames ! nat v))"

definition SearchCategories_Query :: "int list \<Rightarrow> SearchQuery \<Rightarrow> QueryResult" where
  "SearchCategories_Query sc sq =
     (if mask_sq sq AND searchBitMaskCategory \<noteq> 0 then
        (Some (DuplicateOption ''SearchCategories''), sq)
      else if length sc = 0 then
        (Some (InvalidValue ''SearchCategories''), sq)
      else
        case categoriesLoop sc 0 [] of
          None \<Rightarrow> (Some (InvalidValue ''SearchCategory''), sq)
        | Some buffer \<Rightarrow>
            let sq1 = SearchQuery_Append sq searchIdentifierCategory buffer
            in (None, sq1\<lparr>mask_sq := mask_sq sq1 OR searchBitMaskCategory\<rparr>))"

definition SearchRadius_Query :: "int \<Rightarrow> SearchQuery \<Rightarrow> QueryResult" where
  "SearchRadius_Query sr sq =
     (if mask_sq sq AND searchBitMaskRadius \<noteq> 0 then
        (Some (DuplicateOption ''SearchRadius''), sq)
      else if sr < 0 \<or> sr > 40000 then
        (Some (InvalidValue ''SearchRadius''), sq)
      else
        let sq1 = SearchQuery_Append sq searchIdentifierRadius (Itoa sr)
        in (None, sq1\<lparr>mask_sq := mask_sq sq1 OR searchBitMaskRadius\<rparr>))"

definition SearchDeals_Query :: "bool \<Rightarrow> SearchQuery \<Rightarrow> QueryResult" where
  "SearchDeals_Query sd sq =
     (if mask_sq sq AND searchBitMaskDeals \<noteq> 0 then
        (Some (DuplicateOption ''SearchDeals''), sq)
      else
        let sq1 = (if sd = True then SearchQuery_Append sq searchIdentifierDeals ''true''
                   else SearchQuery_Append sq searchIdentifierDeals ''false'')
        in (None, sq1\<lparr>mask_sq := mask_sq sq1 OR searchBitMaskDeals\<rparr>))"

text \<open>
  The interface \<open>SearchQuerier\<close> and its eleven implementations. \<open>Query\<close> dispatches on the
  option and returns the error, the option as the call leaves it (only the terms of
  \<open>SearchTerms\<close> can change) and the container as the call leaves it.
\<close>

datatype SearchQuerier =
    SearchCoordinates float64 float64
  | SearchLocation string
  | SearchLocationCoordinates string float64 float64
  | SearchBounds float64 float64 float64 float64
  | SearchTerms "string list"
  | SearchLimit int
  | SearchOffset int
  | SearchSort int
  | SearchCategories "int list"
  | SearchRadius int
  | SearchDeals bool

fun Query ::
  "(float64 \<Rightarrow> string) \<Rightarrow> SearchQuerier \<Rightarrow> SearchQuery \<Rightarrow> Error option \<times> SearchQuerier \<times> SearchQuery" where
  "Query ff (SearchCoordinates la lo) sq =
     (case SearchCoordinates_Query ff la lo sq of (e, sq') \<Rightarrow> (e, SearchCoordinates la lo, sq'))"
| "Query ff (SearchLocation sl) sq =
     (case SearchLocation_Query sl sq of (e, sq') \<Rightarrow> (e, SearchLocation sl, sq'))"
| "Query ff (SearchLocationCoordinates l la lo) sq =
     (case SearchLocationCoordinates_Query ff l la lo sq of
        (e, sq') \<Rightarrow> (e, SearchLocationCoordinates l la lo, sq'))"
| "Query ff (SearchBounds a b c d) sq =
     (case SearchBounds_Query ff a b c d sq of (e, sq') \<Rightarrow> (e, SearchBounds a b c d, sq'))"
| "Query ff (SearchTerms st) sq =
     (case SearchTerms_Query st sq of (e, st', sq') \<Rightarrow> (e, SearchTerms st', sq'))"
| "Query ff (SearchLimit n) sq =
     (case SearchLimit_Query n sq of (e, sq') \<Rightarrow> (e, SearchLimit n, sq'))"
| "Query ff (SearchOffset n) sq =
     (case SearchOffset_Query n sq of (e, sq') \<Rightarrow> (e, SearchOffset n, sq'))"
| "Query ff (SearchSort n) sq =
     (case SearchSort_Query n sq of (e, sq') \<Rightarrow> (e, SearchSort n, sq'))"
| "Query ff (SearchCategories sc) sq =
     (case SearchCategories_Query sc sq of (e, sq') \<Rightarrow> (e, SearchCategories sc, sq'))"
| "Query ff (SearchRadius n) sq =
     (case SearchRadius_Query n sq of (e, sq') \<Rightarrow> (e, SearchRadius n, sq'))"
| "Query ff (SearchDeals b) sq =
     (case SearchDeals_Query b sq of (e, sq') \<Rightarrow> (e, SearchDeals b, sq'))"

text \<open>The flag an option's \<open>Query\<close> tests and sets: its category.\<close>

fun categoryMask :: "SearchQuerier \<Rightarrow> searchBitMask" where
  "categoryMask (SearchCoordinates _ _) = searchBitMaskLocation"
| "categoryMask (SearchLocation _) = searchBitMaskLocation"
| "categoryMask (SearchLocationCoordinates _ _ _) = searchBitMaskLocation"
| "categoryMask (SearchBounds _ _ _ _) = searchBitMaskLocation"
| "categoryMask (SearchTerms _) = searchBitMaskTerm"
| "categoryMask (SearchLimit _) = searchBitMaskLimit"
| "categoryMask (SearchOffset _) = searchBitMaskOffset"
| "categoryMask (SearchSort _) = searchBitMaskSort"
| "categoryMask (SearchCategories _) = searchBitMaskCategory"
| "categoryMask (SearchRadius _) = searchBitMaskRadius"
| "categoryMask (SearchDeals _) = searchBitMaskDeals"


section \<open>Auxiliary notions for stating the properties\<close>

text \<open>
  A formatter for the concrete examples: on a whole number it gives what
  \<open>strconv.FormatFloat(x, 'f', -1, 64)\<close> gives. The general statements are over every formatter.
\<close>

definition formatIntegral :: "float64 \<Rightarrow> string" where
  "formatIntegral x =
     (case x of Finite r \<Rightarrow> Itoa \<lfloor>r\<rfloor> | PosInf \<Rightarrow> ''+Inf'' | NegInf \<Rightarrow> ''-Inf'' | NaN \<Rightarrow> ''NaN'')"

text \<open>
  The payloads that pass every test of \<open>Query\<close> other than the test of the mask: the
  negations of the conditions under which the methods return their second kind of error.
\<close>

fun validPayload :: "SearchQuerier \<Rightarrow> bool" where
  "validPayload (SearchCoordinates la lo) = validLatitudeLongitude la lo"
| "validPayload (SearchLocation _) = True"
| "validPayload (SearchLocationCoordinates _ la lo) = validLatitudeLongitude la lo"
| "validPayload (SearchBounds a b c d) = (validLatitudeLongitude a b \<and> validLatitudeLongitude c d)"
| "validPayload (SearchTerms _) = True"
| "validPayload (SearchLimit n) = (\<not> (n < 0 \<or> n > 20))"
| "validPayload (SearchOffset n) = (\<not> n < 0)"
| "validPayload (SearchSort n) = (\<not> (n < SearchSortBestMatched \<or> n > SearchSortHighestRated))"
| "validPayload (SearchCategories sc) =
     (length sc \<noteq> 0 \<and> list_all (\<lambda>v. \<not> (v < SearchCategoryActive \<or> v \<ge> SearchCategoryTotal)) sc)"
| "validPayload (SearchRadius n) = (\<not> (n < 0 \<or> n > 40000))"
| "validPayload (SearchDeals _) = True"

text \<open>The kind of a returned error.\<close>

fun isDuplicateOption :: "Error option \<Rightarrow> bool" where
  "isDuplicateOption (Some (DuplicateOption _)) = True"
| "isDuplicateOption _ = False"

fun isInvalidValue :: "Error option \<Rightarrow> bool" where
  "isInvalidValue (Some (InvalidValue _)) = True"
| "isInvalidValue _ = False"

text \<open>
  The body of the loops of \<open>TestArgumentRepetition\<close>: \<open>var q SearchQuery\<close>, then
  \<open>v.Query(&q)\<close>, then \<open>w.Query(&q)\<close>; the two errors.
\<close>

definition applyPair ::
  "(float64 \<Rightarrow> string) \<Rightarrow> SearchQuerier \<Rightarrow> SearchQuerier \<Rightarrow> Error option \<times> Error option" where
  "applyPair ff v w =
     (case Query ff v zeroSearchQuery of
        (err1, v1, q1) \<Rightarrow> (case Query ff w q1 of (err2, w2, q2) \<Rightarrow> (err1, err2)))"

section \<open>Percent encoding\<close>

definition hexMap :: string where
  "hexMap = ''0123456789ABCDEF''"

text \<open>\<open>shouldPercentEncode\<close>, on a byte.\<close>

definition shouldPercentEncode :: "char \<Rightarrow> bool" where
  "shouldPercentEncode c =
     (\<not> ((c \<ge> CHR ''0'' \<and> c \<le> CHR ''9'') \<or> (c \<ge> CHR ''A'' \<and> c \<le> CHR ''Z'') \<or>
         (c \<ge> CHR ''a'' \<and> c \<le> CHR ''z'') \<or>
         c = CHR ''-'' \<or> c = CHR ''.'' \<or> c = CHR ''_'' \<or> c = CHR ''~''))"

text \<open>
  \<open>for _, v := range source\<close> does not walk the bytes of a Go string: by the language
  specification it walks the Unicode code points that the bytes encode in UTF-8, and gives
  \<open>0xFFFD\<close> and advances one byte where the bytes are not a valid encoding. The function
  \<open>decoderune\<close> is the one of Go's runtime that the loop calls for a byte from \<open>0x80\<close> on
  (a byte below \<open>0x80\<close> is its own code point): it returns the code point that starts a
  string that is not empty, and the number of bytes it takes. The masks and shifts of the
  runtime are written with \<open>mod\<close> and multiplication: \<open>b & 0x3F\<close> is \<open>b mod 64\<close>, \<open>x << 6\<close> is
  \<open>x * 64\<close>, and the bit fields that \<open>|\<close> joins do not overlap.
\<close>

definition runeError :: nat where
  "runeError = 0xFFFD"

text \<open>\<open>locb <= b && b <= hicb\<close>: a continuation byte.\<close>

definition continuationByte :: "char \<Rightarrow> bool" where
  "continuationByte c = (0x80 \<le> (of_char c :: nat) \<and> (of_char c :: nat) \<le> 0xBF)"

definition decoderune :: "string \<Rightarrow> nat \<times> nat" where
  "decoderune s =
     (let b0 = (of_char (s ! 0) :: nat) in
      if b0 < 0x80 then (b0, 1)
      else if 0xC0 \<le> b0 \<and> b0 < 0xE0 then
        (if length s > 1 \<and> continuationByte (s ! 1) then
           let r = (b0 mod 32) * 64 + of_char (s ! 1) mod 64
           in if 0x7F < r then (r, 2) else (runeError, 1)
         else (runeError, 1))
      else if 0xE0 \<le> b0 \<and> b0 < 0xF0 then
        (if length s > 2 \<and> continuationByte (s ! 1) \<and> continuationByte (s ! 2) then
           let r = (b0 mod 16) * 4096 + (of_char (s ! 1) mod 64) * 64 + of_char (s ! 2) mod 64
           in if 0x7FF < r \<and> \<not> (0xD800 \<le> r \<and> r \<le> 0xDFFF) then (r, 3) else (runeError, 1)
         else (runeError, 1))
      else if 0xF0 \<le> b0 \<and> b0 < 0xF8 then
        (if length s > 3 \<and> continuationByte (s ! 1) \<and> continuationByte (s ! 2) \<and>
            continuationByte (s ! 3) then
           let r = (b0 mod 8) * 262144 + (of_char (s ! 1) mod 64) * 4096 +
                   (of_char (s ! 2) mod 64) * 64 + of_char (s ! 3) mod 64
           in if 0xFFFF < r \<and> r \<le> 0x10FFFF then (r, 4) else (runeError, 1)
         else (runeError, 1))
      else (runeError, 1))"

lemma decoderune_width: "0 < snd (decoderune s)"
  by (simp add: decoderune_def Let_def)

text \<open>
  What one round of the loop of \<open>percentEncode\<close> writes to the buffer for the byte
  \<open>val\<close>. \<open>(val>>4)&0x0F\<close> is \<open>val div 16 mod 16\<close> and \<open>val&0x0F\<close> is \<open>val mod 16\<close>.
\<close>

definition percentEncode_byte :: "char \<Rightarrow> string" where
  "percentEncode_byte val =
     (if shouldPercentEncode val then
        (if val = CHR '','' then ''%252C''
         else [CHR ''%'', hexMap ! ((of_char val div 16) mod 16), hexMap ! (of_char val mod 16)])
      else [val])"

text \<open>
  The loop of \<open>percentEncode\<close> on what is left of the source: \<open>v\<close> is the code point,
  \<open>val := byte(v)\<close> keeps its low eight bits (\<open>char_of\<close> does).
\<close>

function percentEncode_loop :: "string \<Rightarrow> string \<Rightarrow> string" where
  "percentEncode_loop source buffer =
     (if source = [] then buffer
      else
        let (v, width) = decoderune source;
            val = char_of v
        in percentEncode_loop (drop width source) (buffer @ percentEncode_byte val))"
  by pat_completeness auto

termination percentEncode_loop
proof (relation "measure (\<lambda>(source, buffer). length source)")
  show "wf (measure (\<lambda>(source, buffer). length source))" by simp
next
  fix source buffer :: string and x v width val
  assume "source \<noteq> []" "x = decoderune source" "(v, width) = x"
  then have "0 < width" using decoderune_width [of source] by (metis snd_conv)
  with \<open>source \<noteq> []\<close> show "((drop width source, buffer @ percentEncode_byte val), source, buffer)
       \<in> measure (\<lambda>(source, buffer). length source)"
    by simp
qed

declare percentEncode_loop.simps [simp del]

definition percentEncode :: "string \<Rightarrow> string" where
  "percentEncode source = percentEncode_loop source []"

text \<open>
  The code points the loop \<open>for _, v := range source\<close> goes through, in order: the values of
  \<open>v\<close>.
\<close>

function rangeRunes :: "string \<Rightarrow> nat list" where
  "rangeRunes source =
     (if source = [] then []
      else let (v, width) = decoderune source in v # rangeRunes (drop width source))"
  by pat_completeness auto
termination
proof (relation "measure length")
  show "wf (measure length)" by simp
next
  fix source :: string and x v width
  assume "source \<noteq> []" "x = decoderune source" "(v, width) = x"
  then have "0 < width" using decoderune_width [of source] by (metis snd_conv)
  with \<open>source \<noteq> []\<close> show "(drop width source, source) \<in> measure length"
    by simp
qed

declare rangeRunes.simps [simp del]

subsection \<open>The contract in the words of the specification\<close>

text \<open>
  Section 4.1, byte by byte: a byte of the unreserved set \<open>[A-Za-z0-9-._~]\<close> stays, the comma
  becomes \<open>%252C\<close>, every other byte becomes \<open>%XX\<close> with the two uppercase hexadecimal digits
  of its value. These definitions follow the specification, not the source.
\<close>

definition unreservedChars :: string where
  "unreservedChars = ''ABCDEFGHIJKLMNOPQRSTUVWXYZabcdefghijklmnopqrstuvwxyz0123456789-._~''"

definition upperHexDigit :: "nat \<Rightarrow> char" where
  "upperHexDigit d =
     (if d < 10 then char_of (of_char (CHR ''0'') + d) else char_of (of_char (CHR ''A'') + (d - 10)))"

definition specEncodeByte :: "char \<Rightarrow> string" where
  "specEncodeByte c =
     (if c \<in> set unreservedChars then [c]
      else if c = CHR '','' then ''%252C''
      else [CHR ''%'', upperHexDigit (of_char c div 16), upperHexDigit (of_char c mod 16)])"

text \<open>
  A logical character is a Unicode scalar value: a code point up to \<open>0x10FFFF\<close> that is not a
  surrogate. \<open>utf8\<close> is its encoding in one to four bytes, as the Unicode standard defines it;
  a Go string holding text is the concatenation of these encodings.
\<close>

definition scalarValue :: "nat \<Rightarrow> bool" where
  "scalarValue cp = (cp < 0xD800 \<or> (0xDFFF < cp \<and> cp \<le> 0x10FFFF))"

definition utf8 :: "nat \<Rightarrow> string" where
  "utf8 cp =
     (if cp < 0x80 then [char_of cp]
      else if cp < 0x800 then [char_of (0xC0 + cp div 64), char_of (0x80 + cp mod 64)]
      else if cp < 0x10000 then
        [char_of (0xE0 + cp div 4096), char_of (0x80 + cp div 64 mod 64), char_of (0x80 + cp mod 64)]
      else
        [char_of (0xF0 + cp div 262144), char_of (0x80 + cp div 4096 mod 64),
         char_of (0x80 + cp div 64 mod 64), char_of (0x80 + cp mod 64)])"

section \<open>Sorting and printing a query\<close>

text \<open>The methods of \<open>sort.Interface\<close>. \<open>Less\<close> compares the names as Go compares strings, byte by
  byte: the order of \<^typ>\<open>string\<close> here is the lexicographic order of the bytes.\<close>

definition SearchQuery_Len :: "SearchQuery \<Rightarrow> nat" where
  "SearchQuery_Len q = length (queries q)"

definition SearchQuery_Less :: "SearchQuery \<Rightarrow> nat \<Rightarrow> nat \<Rightarrow> bool" where
  "SearchQuery_Less q i j = (Name (queries q ! i) < Name (queries q ! j))"

definition SearchQuery_Swap :: "SearchQuery \<Rightarrow> nat \<Rightarrow> nat \<Rightarrow> SearchQuery" where
  "SearchQuery_Swap q i j = q\<lparr>queries := (queries q)[i := queries q ! j, j := queries q ! i]\<rparr>"

text \<open>
  \<open>sort.Sort\<close> is Go's library: it reorders the data through \<open>Len\<close>, \<open>Less\<close> and \<open>Swap\<close>
  only, ascending by \<open>Less\<close>, and is not stable. The model is the insertion sort of package
  \<open>sort\<close>, which \<open>sort.Sort\<close> runs on a short section, from \<open>a = 0\<close> to \<open>b = Len()\<close>:
  \<^verbatim>\<open>for i := a + 1; i < b; i++ {
    for j := i; j > a && data.Less(j, j-1); j-- { data.Swap(j, j-1) } }\<close>
  On a long section Go partitions first; which of two elements of one name then comes first
  can differ from the model.
\<close>

fun insertionSort_inner :: "SearchQuery \<Rightarrow> nat \<Rightarrow> SearchQuery" where
  "insertionSort_inner data 0 = data"
| "insertionSort_inner data (Suc j) =
     (if SearchQuery_Less data (Suc j) j
      then insertionSort_inner (SearchQuery_Swap data (Suc j) j) j
      else data)"

function insertionSort_outer :: "SearchQuery \<Rightarrow> nat \<Rightarrow> nat \<Rightarrow> SearchQuery" where
  "insertionSort_outer data i b =
     (if i < b then insertionSort_outer (insertionSort_inner data i) (i + 1) b else data)"
  by pat_completeness auto
termination
  by (relation "measure (\<lambda>(data, i, b). b - i)") auto

declare insertionSort_outer.simps [simp del]

definition sort_Sort :: "SearchQuery \<Rightarrow> SearchQuery" where
  "sort_Sort data = (let n = SearchQuery_Len data in insertionSort_outer data 1 n)"

definition SearchQuery_Sort :: "SearchQuery \<Rightarrow> SearchQuery" where
  "SearchQuery_Sort q = sort_Sort q"

text \<open>
  \<open>SearchQuery.String\<close>: the empty string for no element, else the first element as
  \<open>name=value\<close> and every later one after an ampersand.
\<close>

definition writeElement :: "string \<Rightarrow> searchQueryElement \<Rightarrow> string" where
  "writeElement buffer e = buffer @ Name e @ ''='' @ Value e"

definition SearchQuery_String :: "SearchQuery \<Rightarrow> string" where
  "SearchQuery_String q =
     (if length (queries q) = 0 then []
      else foldl (\<lambda>buffer e. writeElement (buffer @ ''&'') e)
             (writeElement [] (queries q ! 0)) (drop 1 (queries q)))"

section \<open>Signing\<close>

record oauth =
  ConsumerKey :: string
  Token :: string
  hashKey :: string

definition SetHashKey :: "oauth \<Rightarrow> string \<Rightarrow> string \<Rightarrow> oauth" where
  "SetHashKey yoa consumerSecret tokenSecret =
     yoa\<lparr>hashKey := percentEncode consumerSecret @ ''&'' @ percentEncode tokenSecret\<rparr>"

definition nonceCharacters :: string where
  "nonceCharacters = ''abcdefghijklmnopqrstuvwxyzABCDEFGHIJKLMNOPQRSTUVWXYZ0123456789''"

definition nonceLength :: nat where
  "nonceLength = length nonceCharacters"

text \<open>
  \<open>nonce\<close>: round \<open>i\<close> of the loop writes \<open>nonceCharacters[rand.Int()%nonceLength]\<close>. The
  generator is the process's; \<open>rnd i\<close> is what call number \<open>i\<close> of \<open>rand.Int()\<close> returns, never
  negative. The parameter \<open>length\<close> of the source is \<open>length_n\<close>.
\<close>

definition nonce :: "(nat \<Rightarrow> nat) \<Rightarrow> nat \<Rightarrow> string" where
  "nonce rnd length_n = map (\<lambda>i. nonceCharacters ! (rnd i mod nonceLength)) [0..<length_n]"

text \<open>
  \<open>Sign\<close>, statement by statement. What the source takes from outside the repository are
  parameters: \<open>hmacSha1 key message\<close> is the digest that \<open>hmac.New(sha1.New, key)\<close> gives for
  the message, \<open>base64\<close> is \<open>base64.StdEncoding.EncodeToString\<close>, \<open>rnd\<close> the random numbers
  and \<open>now\<close> is \<open>time.Now().Unix()\<close>. The result is the container as the call leaves it.
\<close>

definition Sign ::
  "(string \<Rightarrow> string \<Rightarrow> string) \<Rightarrow> (string \<Rightarrow> string) \<Rightarrow> (nat \<Rightarrow> nat) \<Rightarrow> int \<Rightarrow>
   oauth \<Rightarrow> string \<Rightarrow> string \<Rightarrow> SearchQuery \<Rightarrow> SearchQuery" where
  "Sign hmacSha1 base64 rnd now yoa method url elements =
     (let e1 = SearchQuery_Append elements ''oauth_consumer_key'' (ConsumerKey yoa);
          e2 = SearchQuery_Append e1 ''oauth_nonce'' (nonce rnd 30);
          e3 = SearchQuery_Append e2 ''oauth_signature_method'' ''HMAC-SHA1'';
          e4 = SearchQuery_Append e3 ''oauth_timestamp'' (Itoa now);
          e5 = SearchQuery_Append e4 ''oauth_token'' (Token yoa);
          e6 = SearchQuery_Sort e5;
          signature =
            strings_Join [method, percentEncode url, percentEncode (SearchQuery_String e6)] ''&''
      in SearchQuery_Append e6 ''oauth_signature''
           (percentEncode (base64 (hmacSha1 (hashKey yoa) signature))))"

text \<open>The five elements that \<open>Sign\<close> appends before it sorts.\<close>

definition oauthElements :: "(nat \<Rightarrow> nat) \<Rightarrow> int \<Rightarrow> oauth \<Rightarrow> searchQueryElement list" where
  "oauthElements rnd now yoa =
     [\<lparr>Name = ''oauth_consumer_key'', Value = ConsumerKey yoa\<rparr>,
      \<lparr>Name = ''oauth_nonce'', Value = nonce rnd 30\<rparr>,
      \<lparr>Name = ''oauth_signature_method'', Value = ''HMAC-SHA1''\<rparr>,
      \<lparr>Name = ''oauth_timestamp'', Value = Itoa now\<rparr>,
      \<lparr>Name = ''oauth_token'', Value = Token yoa\<rparr>]"

section \<open>Decimal digits\<close>

lemma nat_lt_10_cases:
  assumes "(d::nat) < 10"
  obtains "d = 0" | "d = 1" | "d = 2" | "d = 3" | "d = 4" | "d = 5" | "d = 6" | "d = 7"
    | "d = 8" | "d = 9"
  using assms by atomize_elim arith

lemma digitChar_value: "d < 10 \<Longrightarrow> (of_char (digitChar d) :: nat) = of_char (CHR ''0'') + d"
  by (erule nat_lt_10_cases) (simp_all add: digitChar_def)

lemma decimalValue_digitsOf: "decimalValue (digitsOf n) = n"
proof (induction n rule: digitsOf.induct)
  case (1 n)
  show ?case
  proof (cases "n < 10")
    case True
    then show ?thesis
      by (subst digitsOf.simps) (simp add: decimalValue_def digitChar_value)
  next
    case False
    have "n mod 10 < 10" by simp
    then have "decimalValue (digitsOf (n div 10) @ [digitChar (n mod 10)]) =
        10 * decimalValue (digitsOf (n div 10)) + n mod 10"
      by (simp add: decimalValue_def digitChar_value)
    with False "1.IH" show ?thesis
      by (subst digitsOf.simps) simp
  qed
qed

text \<open>What \<open>Itoa\<close> prints for a number that is not negative denotes that number.\<close>

lemma Itoa_value: "0 \<le> i \<Longrightarrow> int (decimalValue (Itoa i)) = i"
  by (simp add: Itoa_def decimalValue_digitsOf)

section \<open>Applying the options\<close>

lemmas Query_defs =
  SearchCoordinates_Query_def SearchLocation_Query_def SearchLocationCoordinates_Query_def
  SearchBounds_Query_def SearchTerms_Query_def SearchLimit_Query_def SearchOffset_Query_def
  SearchSort_Query_def SearchCategories_Query_def SearchRadius_Query_def SearchDeals_Query_def

lemmas searchBitMask_defs =
  searchBitMaskTerm_def searchBitMaskLimit_def searchBitMaskOffset_def
  searchBitMaskSort_def searchBitMaskCategory_def searchBitMaskRadius_def searchBitMaskDeals_def
  searchBitMaskLocation_def

lemma mask_Append [simp]: "mask_sq (SearchQuery_Append q n v) = mask_sq q"
  by (simp add: SearchQuery_Append_def)

lemma categoriesLoop_None:
  "categoriesLoop sc i buffer = None \<longleftrightarrow>
     \<not> list_all (\<lambda>v. \<not> v < SearchCategoryActive \<and> \<not> SearchCategoryTotal \<le> v) sc"
  by (induction sc arbitrary: i buffer) (auto simp: Let_def)

lemma categoriesLoop_Some:
  "categoriesLoop sc i buffer = Some b \<Longrightarrow>
     list_all (\<lambda>v. \<not> v < SearchCategoryActive \<and> \<not> SearchCategoryTotal \<le> v) sc"
  using categoriesLoop_None [of sc i buffer] by auto

text \<open>No path that returns an error writes the mask.\<close>

lemma Query_error_mask:
  "Query ff opt sq = (Some e, opt', sq') \<Longrightarrow> mask_sq sq' = mask_sq sq"
  by (cases opt) (auto simp: Query_defs Let_def split: if_splits option.splits)

text \<open>An option whose flag is set is refused, and nothing changes.\<close>

lemma Query_duplicate:
  "mask_sq sq AND categoryMask opt \<noteq> 0 \<Longrightarrow>
     \<exists>origin. Query ff opt sq = (Some (DuplicateOption origin), opt, sq)"
  by (cases opt) (auto simp: Query_defs)

text \<open>An option whose flag is not set and whose payload is valid is accepted, and sets its flag.\<close>

lemma Query_valid:
  "mask_sq sq AND categoryMask opt = 0 \<Longrightarrow> validPayload opt \<Longrightarrow>
     \<exists>opt' sq'. Query ff opt sq = (None, opt', sq') \<and> mask_sq sq' = mask_sq sq OR categoryMask opt"
  by (cases opt) (auto simp: Query_defs Let_def categoriesLoop_None split: option.splits)

text \<open>An option whose flag is not set and whose payload is not valid gets the second kind of error.\<close>

lemma Query_invalid:
  "mask_sq sq AND categoryMask opt = 0 \<Longrightarrow> \<not> validPayload opt \<Longrightarrow>
     isInvalidValue (fst (Query ff opt sq))"
  by (cases opt) (auto simp: Query_defs Let_def categoriesLoop_None split: option.splits
      dest: categoriesLoop_Some)

text \<open>
  Every failing call but one leaves the container as it was: the exception is
  \<open>SearchLocationCoordinates\<close>, which appends the location before it checks the coordinates.
\<close>

lemma Query_error_container:
  "Query ff opt sq = (Some e, opt', sq') \<Longrightarrow>
     (case opt of SearchLocationCoordinates l la lo \<Rightarrow> False | _ \<Rightarrow> True) \<Longrightarrow> sq' = sq"
  by (cases opt) (auto simp: Query_defs Let_def split: if_splits option.splits)

text \<open>Every option but \<open>SearchTerms\<close> is left as it was, and so are terms without a space.\<close>

lemma Query_option_unchanged:
  "Query ff opt sq = (e, opt', sq') \<Longrightarrow>
     (case opt of
        SearchTerms st \<Rightarrow> mask_sq sq AND searchBitMaskTerm \<noteq> 0 \<or> map spacesToPlus st = st
      | _ \<Rightarrow> True) \<Longrightarrow>
     opt' = opt"
  by (cases opt) (auto simp: Query_defs Let_def split: if_splits option.splits prod.splits)

lemma categoryMask_nonzero: "categoryMask opt \<noteq> 0"
  by (cases opt) (simp_all add: searchBitMask_defs)

lemma categoryMask_disjoint:
  "categoryMask a \<noteq> categoryMask b \<Longrightarrow> categoryMask a AND categoryMask b = 0"
  by (cases a; cases b) (simp_all add: searchBitMask_defs)

lemma applyPair_valid:
  assumes "validPayload v" and "validPayload w"
  shows "fst (applyPair ff v w) = None \<and>
         (if categoryMask v = categoryMask w then isDuplicateOption (snd (applyPair ff v w))
          else snd (applyPair ff v w) = None)"
proof -
  have "mask_sq zeroSearchQuery AND categoryMask v = 0"
    by (simp add: zeroSearchQuery_def)
  from Query_valid [OF this assms(1), of ff]
  obtain v1 q1 where q1: "Query ff v zeroSearchQuery = (None, v1, q1)"
    and m1: "mask_sq q1 = categoryMask v"
    by (auto simp: zeroSearchQuery_def)
  show ?thesis
  proof (cases "categoryMask v = categoryMask w")
    case True
    then have "mask_sq q1 AND categoryMask w \<noteq> 0"
      using m1 categoryMask_nonzero [of w] by simp
    from Query_duplicate [OF this, of ff] show ?thesis
      using q1 True by (auto simp: applyPair_def)
  next
    case False
    then have "mask_sq q1 AND categoryMask w = 0"
      using m1 categoryMask_disjoint by simp
    from Query_valid [OF this assms(2), of ff] show ?thesis
      using q1 False by (auto simp: applyPair_def)
  qed
qed

text \<open>
  C1: two options with valid payloads, applied one after the other to a fresh container, in
  either order. The first application succeeds. When both are of one category (the four kinds
  of location share the flag \<open>searchBitMaskLocation\<close>) the second fails with a
  \<open>DuplicateOption\<close>; when they are of different categories the second succeeds too.
\<close>

theorem C1_mutual_exclusion:
  assumes "validPayload v" and "validPayload w"
  shows "fst (applyPair ff v w) = None \<and> fst (applyPair ff w v) = None \<and>
         (if categoryMask v = categoryMask w
          then isDuplicateOption (snd (applyPair ff v w)) \<and> isDuplicateOption (snd (applyPair ff w v))
          else snd (applyPair ff v w) = None \<and> snd (applyPair ff w v) = None)"
  using applyPair_valid [OF assms, of ff] applyPair_valid [OF assms(2) assms(1), of ff]
  by (simp split: if_splits)

theorem C1_mutual_exclusion_witness:
  "validPayload (SearchCoordinates (Finite 0) (Finite 0)) \<and>
   validPayload (SearchBounds (Finite 0) (Finite 0) (Finite 1) (Finite 1)) \<and>
   validPayload (SearchLimit 1) \<and>
   applyPair formatIntegral (SearchCoordinates (Finite 0) (Finite 0))
     (SearchBounds (Finite 0) (Finite 0) (Finite 1) (Finite 1)) =
     (None, Some (DuplicateOption ''SearchBounds'')) \<and>
   applyPair formatIntegral (SearchLimit 1) (SearchCoordinates (Finite 0) (Finite 0)) = (None, None)"
proof -
  have v: "validPayload (SearchCoordinates (Finite 0) (Finite 0))"
    and w: "validPayload (SearchBounds (Finite 0) (Finite 0) (Finite 1) (Finite 1))"
    and l: "validPayload (SearchLimit 1)"
    by (simp_all add: validLatitudeLongitude_def fgt_def)
  have "snd (applyPair formatIntegral (SearchCoordinates (Finite 0) (Finite 0))
     (SearchBounds (Finite 0) (Finite 0) (Finite 1) (Finite 1))) = Some (DuplicateOption ''SearchBounds'')"
    by (simp add: applyPair_def Query_defs Let_def validLatitudeLongitude_def fgt_def
        zeroSearchQuery_def searchBitMask_defs)
  with C1_mutual_exclusion [OF v w, of formatIntegral] C1_mutual_exclusion [OF l v, of formatIntegral]
  show ?thesis
    using v w l by (simp add: prod_eq_iff searchBitMask_defs)
qed

text \<open>
  C2: a failing call is meant to leave the container as it was. The call of
  \<open>SearchLocationCoordinates{"Delft", 91, 0}.Query\<close> on a fresh container fails on the latitude,
  and the container holds \<open>location=Delft\<close> afterwards: the source appends the location before
  it checks the coordinates. (\<open>Query_error_container\<close> above: every other failing call leaves
  the container as it was.)
\<close>

theorem C2_failing_call_appends:
  "Query ff (SearchLocationCoordinates ''Delft'' (Finite 91) (Finite 0)) zeroSearchQuery =
     (Some (InvalidValue ''SearchLocationCoordinates''),
      SearchLocationCoordinates ''Delft'' (Finite 91) (Finite 0),
      \<lparr>queries = [\<lparr>Name = ''location'', Value = ''Delft''\<rparr>], mask_sq = 0\<rparr>)"
  by (simp add: SearchLocationCoordinates_Query_def zeroSearchQuery_def SearchQuery_Append_def
      validLatitudeLongitude_def fgt_def spacesToPlus_def searchIdentifierLocation_def)

text \<open>
  C6: neither \<open>SearchLocation.Query\<close> nor \<open>SearchTerms.Query\<close> tests its payload. As amended:
  on a fresh container both succeed for every payload, the empty name and the empty list of
  terms included; they append one element, \<open>location\<close> with the name or \<open>term\<close> with the joined
  terms (spaces replaced by plus signs), and set their flag.
\<close>

theorem C6_no_emptiness_check:
  "SearchLocation_Query sl zeroSearchQuery =
     (None, \<lparr>queries = [\<lparr>Name = ''location'', Value = spacesToPlus sl\<rparr>],
             mask_sq = searchBitMaskLocation\<rparr>) \<and>
   SearchTerms_Query st zeroSearchQuery =
     (None, map spacesToPlus st,
      \<lparr>queries = [\<lparr>Name = ''term'', Value = strings_Join (map spacesToPlus st) '',''\<rparr>],
        mask_sq = searchBitMaskTerm\<rparr>)"
  by (simp add: SearchLocation_Query_def SearchTerms_Query_def zeroSearchQuery_def
      SearchQuery_Append_def searchIdentifierLocation_def searchIdentifierTerm_def Let_def)

theorem C6_no_emptiness_check_witness:
  "SearchLocation_Query ''New York'' zeroSearchQuery =
     (None, \<lparr>queries = [\<lparr>Name = ''location'', Value = ''New+York''\<rparr>], mask_sq = 128\<rparr>) \<and>
   SearchTerms_Query [''pizza bar'', ''pub''] zeroSearchQuery =
     (None, [''pizza+bar'', ''pub''],
      \<lparr>queries = [\<lparr>Name = ''term'', Value = ''pizza+bar,pub''\<rparr>], mask_sq = 1\<rparr>)"
  using C6_no_emptiness_check [of "''New York''" "[''pizza bar'', ''pub'']"]
  by (simp add: spacesToPlus_def searchBitMask_defs)

text \<open>
  C6 as stated fails: the empty name and the empty list of terms are accepted, and an element
  with an empty value is appended.
\<close>

theorem C6_empty_payload_counterexample:
  "SearchLocation_Query [] zeroSearchQuery =
     (None, \<lparr>queries = [\<lparr>Name = ''location'', Value = []\<rparr>], mask_sq = 128\<rparr>) \<and>
   SearchTerms_Query [] zeroSearchQuery =
     (None, [], \<lparr>queries = [\<lparr>Name = ''term'', Value = []\<rparr>], mask_sq = 1\<rparr>)"
  by (simp add: SearchLocation_Query_def SearchTerms_Query_def zeroSearchQuery_def
      SearchQuery_Append_def searchIdentifierLocation_def searchIdentifierTerm_def
      spacesToPlus_def searchBitMask_defs)

text \<open>
  C7: on a fresh container \<open>SearchLimit(n)\<close> succeeds and appends \<open>limit\<close> with the decimal
  digits of \<open>n\<close> exactly when \<open>0 \<le> n \<le> 20\<close>, and fails with an \<open>InvalidValue\<close> otherwise;
  \<open>SearchRadius(r)\<close> does the same with \<open>radius_filter\<close> and \<open>0 \<le> r \<le> 40000\<close>. A failing call
  leaves the container fresh.
\<close>

theorem C7_numeric_range:
  "SearchLimit_Query n zeroSearchQuery =
     (if 0 \<le> n \<and> n \<le> 20
      then (None, \<lparr>queries = [\<lparr>Name = ''limit'', Value = Itoa n\<rparr>], mask_sq = searchBitMaskLimit\<rparr>)
      else (Some (InvalidValue ''SearchLimit''), zeroSearchQuery)) \<and>
   SearchRadius_Query r zeroSearchQuery =
     (if 0 \<le> r \<and> r \<le> 40000
      then (None, \<lparr>queries = [\<lparr>Name = ''radius_filter'', Value = Itoa r\<rparr>], mask_sq = searchBitMaskRadius\<rparr>)
      else (Some (InvalidValue ''SearchRadius''), zeroSearchQuery))"
  by (auto simp: SearchLimit_Query_def SearchRadius_Query_def zeroSearchQuery_def
      SearchQuery_Append_def searchIdentifierLimit_def searchIdentifierRadius_def Let_def)

theorem C7_numeric_range_witness:
  "SearchLimit_Query 20 zeroSearchQuery =
     (None, \<lparr>queries = [\<lparr>Name = ''limit'', Value = ''20''\<rparr>], mask_sq = 2\<rparr>) \<and>
   SearchRadius_Query 40000 zeroSearchQuery =
     (None, \<lparr>queries = [\<lparr>Name = ''radius_filter'', Value = ''40000''\<rparr>], mask_sq = 32\<rparr>) \<and>
   SearchLimit_Query 25 zeroSearchQuery = (Some (InvalidValue ''SearchLimit''), zeroSearchQuery) \<and>
   SearchRadius_Query 40001 zeroSearchQuery = (Some (InvalidValue ''SearchRadius''), zeroSearchQuery)"
proof -
  have "Itoa 20 = ''20''" and "Itoa 40000 = ''40000''"
    by (simp_all add: Itoa_def digitsOf.simps digitChar_def)
  then show ?thesis
    using C7_numeric_range [of 20 40000] C7_numeric_range [of 25 40001]
    by (simp add: searchBitMask_defs)
qed

text \<open>
  C9: an option is meant to be left as it was. \<open>SearchTerms{"pizza bar"}.Query\<close> on a fresh
  container succeeds, and the caller's slice holds \<open>"pizza+bar"\<close> afterwards: the loop of the
  source writes the replaced terms into the slice it was given. (\<open>Query_option_unchanged\<close>
  above: every other option is left as it was.)
\<close>

theorem C9_terms_rewritten:
  "Query ff (SearchTerms [''pizza bar'']) zeroSearchQuery =
     (None, SearchTerms [''pizza+bar''],
      \<lparr>queries = [\<lparr>Name = ''term'', Value = ''pizza+bar''\<rparr>], mask_sq = 1\<rparr>)"
  by (simp add: SearchTerms_Query_def zeroSearchQuery_def SearchQuery_Append_def
      spacesToPlus_def searchIdentifierTerm_def searchBitMaskTerm_def)

text \<open>
  C10: a call that returns an error leaves the mask as it was; so after a call that failed
  with an \<open>InvalidValue\<close>, an option of the same category with a valid payload is accepted.
\<close>

theorem C10_flags_preserved_on_failure:
  assumes "Query ff opt sq = (Some e, opt', sq')"
  shows "mask_sq sq' = mask_sq sq \<and>
         (\<forall>retry. isInvalidValue (Some e) \<and> categoryMask retry = categoryMask opt \<and> validPayload retry
            \<longrightarrow> fst (Query ff retry sq') = None)"
proof -
  have m: "mask_sq sq' = mask_sq sq"
    using assms by (rule Query_error_mask)
  have "fst (Query ff retry sq') = None"
    if inv: "isInvalidValue (Some e)" and c: "categoryMask retry = categoryMask opt"
      and v: "validPayload retry" for retry
  proof -
    have "mask_sq sq AND categoryMask opt = 0"
    proof (rule ccontr)
      assume "mask_sq sq AND categoryMask opt \<noteq> 0"
      from Query_duplicate [OF this, of ff] assms inv show False by auto
    qed
    then have "mask_sq sq' AND categoryMask retry = 0"
      using m c by simp
    from Query_valid [OF this v, of ff] show ?thesis by auto
  qed
  with m show ?thesis by blast
qed

theorem C10_flags_preserved_on_failure_witness:
  "Query formatIntegral (SearchLocationCoordinates ''Delft'' (Finite 91) (Finite 0)) zeroSearchQuery =
     (Some (InvalidValue ''SearchLocationCoordinates''),
      SearchLocationCoordinates ''Delft'' (Finite 91) (Finite 0),
      \<lparr>queries = [\<lparr>Name = ''location'', Value = ''Delft''\<rparr>], mask_sq = 0\<rparr>) \<and>
   fst (Query formatIntegral (SearchCoordinates (Finite 0) (Finite 0))
      \<lparr>queries = [\<lparr>Name = ''location'', Value = ''Delft''\<rparr>], mask_sq = 0\<rparr>) = None"
proof -
  have q: "Query formatIntegral (SearchLocationCoordinates ''Delft'' (Finite 91) (Finite 0)) zeroSearchQuery =
     (Some (InvalidValue ''SearchLocationCoordinates''),
      SearchLocationCoordinates ''Delft'' (Finite 91) (Finite 0),
      \<lparr>queries = [\<lparr>Name = ''location'', Value = ''Delft''\<rparr>], mask_sq = 0\<rparr>)"
    by (simp add: SearchLocationCoordinates_Query_def zeroSearchQuery_def SearchQuery_Append_def
        validLatitudeLongitude_def fgt_def spacesToPlus_def searchIdentifierLocation_def)
  have v: "validPayload (SearchCoordinates (Finite 0) (Finite 0))"
    by (simp add: validLatitudeLongitude_def fgt_def)
  from C10_flags_preserved_on_failure [OF q]
  have "isInvalidValue (Some (InvalidValue ''SearchLocationCoordinates'')) \<and>
        categoryMask (SearchCoordinates (Finite 0) (Finite 0)) =
          categoryMask (SearchLocationCoordinates ''Delft'' (Finite 91) (Finite 0)) \<and>
        validPayload (SearchCoordinates (Finite 0) (Finite 0)) \<longrightarrow>
        fst (Query formatIntegral (SearchCoordinates (Finite 0) (Finite 0))
          \<lparr>queries = [\<lparr>Name = ''location'', Value = ''Delft''\<rparr>], mask_sq = 0\<rparr>) = None"
    by blast
  with v have "fst (Query formatIntegral (SearchCoordinates (Finite 0) (Finite 0))
          \<lparr>queries = [\<lparr>Name = ''location'', Value = ''Delft''\<rparr>], mask_sq = 0\<rparr>) = None"
    by (simp del: Query.simps)
  with q show ?thesis
    by (intro conjI)
qed

section \<open>Percent encoding: what the loop computes\<close>


lemma mod_add_multiple: "(m::nat) dvd k \<Longrightarrow> (k + x) mod m = x mod m"
  by (metis dvd_eq_mod_eq_0 mod_add_left_eq add_0)

lemma split3: "(cp::nat) div 4096 * 4096 + cp div 64 mod 64 * 64 + cp mod 64 = cp"
proof -
  have "cp mod (64 * 64) = 64 * (cp div 64 mod 64) + cp mod 64"
    by (rule mod_mult2_eq)
  then have "cp mod 4096 = cp div 64 mod 64 * 64 + cp mod 64"
    by simp
  moreover have "cp div 4096 * 4096 + cp mod 4096 = cp"
    by simp
  ultimately show ?thesis
    by (simp only: add.assoc)
qed

lemma split4:
  "(cp::nat) div 262144 * 262144 + cp div 4096 mod 64 * 4096 + cp div 64 mod 64 * 64 + cp mod 64 = cp"
proof -
  have "cp mod (4096 * 64) = 4096 * (cp div 4096 mod 64) + cp mod 4096"
    by (rule mod_mult2_eq)
  then have "cp mod 262144 = cp div 4096 mod 64 * 4096 + cp mod 4096"
    by simp
  moreover have "cp mod (64 * 64) = 64 * (cp div 64 mod 64) + cp mod 64"
    by (rule mod_mult2_eq)
  then have "cp mod 4096 = cp div 64 mod 64 * 64 + cp mod 64"
    by simp
  moreover have "cp div 262144 * 262144 + cp mod 262144 = cp"
    by simp
  ultimately show ?thesis
    by (simp only: add.assoc)
qed


lemma decoderune_1:
  assumes "b < 128"
  shows "decoderune (char_of b # rest) = (b, 1)"
  using assms by (simp add: decoderune_def Let_def)

lemma decoderune_2:
  assumes "2 \<le> q" "q < 32" "r < 64"
  shows "decoderune (char_of (192 + q) # char_of (128 + r) # rest) = (q * 64 + r, 2)"
proof -
  have b0: "(of_char (char_of (192 + q)) :: nat) = 192 + q"
    using assms by simp
  have b1: "(of_char (char_of (128 + r)) :: nat) = 128 + r"
    using assms by simp
  have m0: "(192 + q) mod 32 = q"
    using assms by (simp add: mod_add_multiple)
  have m1: "(128 + r) mod 64 = r"
    using assms by (simp add: mod_add_multiple)
  show ?thesis
    unfolding decoderune_def continuationByte_def Let_def
    using assms by (simp add: b0 b1 m0 m1 del: of_char_of)
qed

lemma decoderune_3:
  assumes "q < 16" "r < 64" "t < 64" "2047 < q * 4096 + r * 64 + t"
    and "\<not> (55296 \<le> q * 4096 + r * 64 + t \<and> q * 4096 + r * 64 + t \<le> 57343)"
  shows "decoderune (char_of (224 + q) # char_of (128 + r) # char_of (128 + t) # rest) =
           (q * 4096 + r * 64 + t, 3)"
proof -
  have b0: "(of_char (char_of (224 + q)) :: nat) = 224 + q"
    using assms by simp
  have b1: "(of_char (char_of (128 + r)) :: nat) = 128 + r"
    using assms by simp
  have b2: "(of_char (char_of (128 + t)) :: nat) = 128 + t"
    using assms by simp
  have m0: "(224 + q) mod 16 = q"
    using assms by (simp add: mod_add_multiple)
  have m1: "(128 + r) mod 64 = r"
    using assms by (simp add: mod_add_multiple)
  have m2: "(128 + t) mod 64 = t"
    using assms by (simp add: mod_add_multiple)
  show ?thesis
    unfolding decoderune_def continuationByte_def Let_def
    using assms by (simp add: b0 b1 b2 m0 m1 m2 del: of_char_of)
qed

lemma decoderune_4:
  assumes "q < 8" "r < 64" "t < 64" "u < 64" "65535 < q * 262144 + r * 4096 + t * 64 + u"
    and "q * 262144 + r * 4096 + t * 64 + u \<le> 1114111"
  shows "decoderune (char_of (240 + q) # char_of (128 + r) # char_of (128 + t) # char_of (128 + u) # rest) =
           (q * 262144 + r * 4096 + t * 64 + u, 4)"
proof -
  have b0: "(of_char (char_of (240 + q)) :: nat) = 240 + q"
    using assms by simp
  have b1: "(of_char (char_of (128 + r)) :: nat) = 128 + r"
    using assms by simp
  have b2: "(of_char (char_of (128 + t)) :: nat) = 128 + t"
    using assms by simp
  have b3: "(of_char (char_of (128 + u)) :: nat) = 128 + u"
    using assms by simp
  have m0: "(240 + q) mod 8 = q"
    using assms by (simp add: mod_add_multiple)
  have m1: "(128 + r) mod 64 = r"
    using assms by (simp add: mod_add_multiple)
  have m2: "(128 + t) mod 64 = t"
    using assms by (simp add: mod_add_multiple)
  have m3: "(128 + u) mod 64 = u"
    using assms by (simp add: mod_add_multiple)
  show ?thesis
    unfolding decoderune_def continuationByte_def Let_def
    using assms by (simp add: b0 b1 b2 b3 m0 m1 m2 m3 del: of_char_of)
qed

lemma decoderune_utf8:
  assumes "scalarValue cp"
  shows "decoderune (utf8 cp @ rest) = (cp, length (utf8 cp))"
proof -
  consider "cp < 128" | "128 \<le> cp" "cp < 2048" | "2048 \<le> cp" "cp < 65536" | "65536 \<le> cp"
    by linarith
  then show ?thesis
  proof cases
    case 1
    then show ?thesis
      by (simp add: utf8_def decoderune_1)
  next
    case 2
    then have "2 \<le> cp div 64" "cp div 64 < 32"
      by simp_all
    from decoderune_2 [OF this, of "cp mod 64" rest] 2 show ?thesis
      by (simp add: utf8_def)
  next
    case 3
    then have q: "cp div 4096 < 16"
      by simp
    have v: "cp div 4096 * 4096 + cp div 64 mod 64 * 64 + cp mod 64 = cp"
      by (rule split3)
    have "decoderune (char_of (224 + cp div 4096) # char_of (128 + cp div 64 mod 64) #
            char_of (128 + cp mod 64) # rest) =
          (cp div 4096 * 4096 + cp div 64 mod 64 * 64 + cp mod 64, 3)"
    proof (rule decoderune_3)
      show "cp div 4096 < 16" by (rule q)
      show "2047 < cp div 4096 * 4096 + cp div 64 mod 64 * 64 + cp mod 64"
        unfolding v using 3 by simp
      show "\<not> (55296 \<le> cp div 4096 * 4096 + cp div 64 mod 64 * 64 + cp mod 64 \<and>
               cp div 4096 * 4096 + cp div 64 mod 64 * 64 + cp mod 64 \<le> 57343)"
        unfolding v using assms 3 by (auto simp: scalarValue_def)
    qed simp_all
    with 3 show ?thesis
      by (simp add: utf8_def v)
  next
    case 4
    with assms have le: "cp \<le> 1114111"
      by (simp add: scalarValue_def)
    then have q: "cp div 262144 < 8"
      by simp
    have v: "cp div 262144 * 262144 + cp div 4096 mod 64 * 4096 + cp div 64 mod 64 * 64 + cp mod 64 = cp"
      by (rule split4)
    have "decoderune (char_of (240 + cp div 262144) # char_of (128 + cp div 4096 mod 64) #
            char_of (128 + cp div 64 mod 64) # char_of (128 + cp mod 64) # rest) =
          (cp div 262144 * 262144 + cp div 4096 mod 64 * 4096 + cp div 64 mod 64 * 64 + cp mod 64, 4)"
    proof (rule decoderune_4)
      show "cp div 262144 < 8" by (rule q)
      show "65535 < cp div 262144 * 262144 + cp div 4096 mod 64 * 4096 + cp div 64 mod 64 * 64 + cp mod 64"
        unfolding v using 4 by simp
      show "cp div 262144 * 262144 + cp div 4096 mod 64 * 4096 + cp div 64 mod 64 * 64 + cp mod 64 \<le> 1114111"
        unfolding v using le by simp
    qed simp_all
    with 4 show ?thesis
      by (simp add: utf8_def v)
  qed
qed

lemma percentEncode_loop_runes:
  "percentEncode_loop source buffer =
     buffer @ concat (map (\<lambda>v. percentEncode_byte (char_of v)) (rangeRunes source))"
proof (induction source buffer rule: percentEncode_loop.induct)
  case (1 source buffer)
  show ?case
  proof (cases "source = []")
    case True
    then show ?thesis
      by (simp add: percentEncode_loop.simps rangeRunes.simps)
  next
    case False
    obtain v width where d: "decoderune source = (v, width)"
      by (cases "decoderune source")
    have "percentEncode_loop source buffer =
            percentEncode_loop (drop width source) (buffer @ percentEncode_byte (char_of v))"
      using False d by (subst percentEncode_loop.simps) simp
    also have "\<dots> = (buffer @ percentEncode_byte (char_of v)) @
        concat (map (\<lambda>v. percentEncode_byte (char_of v)) (rangeRunes (drop width source)))"
      using "1.IH" [OF False d [symmetric] refl refl] .
    also have "rangeRunes source = v # rangeRunes (drop width source)"
      using False d by (subst rangeRunes.simps) simp
    then have "(buffer @ percentEncode_byte (char_of v)) @
        concat (map (\<lambda>v. percentEncode_byte (char_of v)) (rangeRunes (drop width source))) =
        buffer @ concat (map (\<lambda>v. percentEncode_byte (char_of v)) (rangeRunes source))"
      by simp
    finally show ?thesis .
  qed
qed

lemma percentEncode_runes:
  "percentEncode source = concat (map (\<lambda>v. percentEncode_byte (char_of v)) (rangeRunes source))"
  by (simp add: percentEncode_def percentEncode_loop_runes)

lemma utf8_not_Nil: "utf8 cp \<noteq> []"
  by (simp add: utf8_def)

lemma rangeRunes_utf8:
  assumes "scalarValue cp"
  shows "rangeRunes (utf8 cp @ rest) = cp # rangeRunes rest"
  using decoderune_utf8 [OF assms, of rest] utf8_not_Nil [of cp]
  by (subst rangeRunes.simps) simp

lemma rangeRunes_utf8_text:
  "list_all scalarValue cps \<Longrightarrow> rangeRunes (concat (map utf8 cps)) = cps"
  by (induction cps) (simp_all add: rangeRunes_utf8, simp add: rangeRunes.simps)

lemma rangeRunes_ascii:
  "list_all (\<lambda>c. (of_char c :: nat) < 128) s \<Longrightarrow> rangeRunes s = map of_char s"
proof (induction s)
  case Nil
  then show ?case by (simp add: rangeRunes.simps)
next
  case (Cons c s)
  then have "(of_char c :: nat) < 128" by simp
  from decoderune_1 [OF this, of s] have "decoderune (c # s) = (of_char c, 1)"
    by simp
  with Cons show ?case
    by (subst rangeRunes.simps) simp
qed



lemma char_of_nat_eq_iff: "char_of (n::nat) = c \<longleftrightarrow> n mod 256 = of_char c"
  by (metis char_of_char of_char_of)

lemma char_eq_char_of_nat_iff: "c = char_of (n::nat) \<longleftrightarrow> of_char c = n mod 256"
  by (metis char_of_char of_char_of)

lemma nat_lt_16_cases:
  assumes "(d::nat) < 16"
  obtains "d = 0" | "d = 1" | "d = 2" | "d = 3" | "d = 4" | "d = 5" | "d = 6" | "d = 7"
    | "d = 8" | "d = 9" | "d = 10" | "d = 11" | "d = 12" | "d = 13" | "d = 14" | "d = 15"
  using assms by atomize_elim arith

lemma hexMap_upperHexDigit: "d < 16 \<Longrightarrow> hexMap ! d = upperHexDigit d"
  by (erule nat_lt_16_cases) (simp_all add: hexMap_def upperHexDigit_def char_eq_char_of_nat_iff)

lemma shouldPercentEncode_unreserved:
  "shouldPercentEncode c \<longleftrightarrow> c \<notin> set unreservedChars"
proof -
  obtain n :: nat where c: "c = char_of n" and n: "n < 256"
    by (metis char_of_char of_char_of mod_less_divisor zero_less_numeral)
  show ?thesis
    unfolding shouldPercentEncode_def unreservedChars_def c
    using n by (simp add: less_eq_char_def char_of_nat_eq_iff) arith
qed

lemma percentEncode_byte_spec: "percentEncode_byte c = specEncodeByte c"
proof -
  have "(of_char c :: nat) < 256"
    by (metis of_char_of char_of_char mod_less_divisor zero_less_numeral)
  then have "(of_char c :: nat) div 16 < 16"
    by (simp add: div_less_iff_less_mult)
  then show ?thesis
    by (simp add: percentEncode_byte_def specEncodeByte_def shouldPercentEncode_unreserved
        hexMap_upperHexDigit)
qed


lemmas percentEncode_eval =
  percentEncode_def percentEncode_loop.simps decoderune_def percentEncode_byte_def
  shouldPercentEncode_def hexMap_def Let_def continuationByte_def runeError_def
  char_of_eq_iff less_eq_char_def

text \<open>On input of bytes below \<open>0x80\<close> the loop does what section 4.1 says, byte by byte.\<close>

lemma percentEncode_ascii:
  assumes "list_all (\<lambda>c. (of_char c :: nat) < 128) source"
  shows "percentEncode source = concat (map specEncodeByte source)"
proof -
  have "map (\<lambda>v :: nat. percentEncode_byte (char_of v)) (map of_char source) =
        map specEncodeByte source"
    by (simp add: percentEncode_byte_spec)
  then show ?thesis
    by (simp only: percentEncode_runes rangeRunes_ascii [OF assms])
qed

lemma percentEncode_empty: "percentEncode [] = []"
  by (simp add: percentEncode_def percentEncode_loop.simps)

text \<open>The table of \<open>TestPercentEncode\<close>, and the comma.\<close>

lemma percentEncode_test_table:
  "percentEncode [] = []"
  "percentEncode ''abc'' = ''abc''"
  "percentEncode ''abc abc'' = ''abc%20abc''"
  "percentEncode ''abc!abc@abc'' = ''abc%21abc%40abc''"
  "percentEncode ''abc#abc$abc'' = ''abc%23abc%24abc''"
  "percentEncode ''abc%abc^abc'' = ''abc%25abc%5Eabc''"
  "percentEncode ''abc&abc*abc'' = ''abc%26abc%2Aabc''"
  "percentEncode ''abc(abc)abc'' = ''abc%28abc%29abc''"
  "percentEncode ''abc-abc_abc'' = ''abc-abc_abc''"
  "percentEncode ''abc=abc+abc'' = ''abc%3Dabc%2Babc''"
  "percentEncode ''a,b'' = ''a%252Cb''"
  by (simp_all add: percentEncode_eval)

text \<open>
  C3: the contract of section 4.1 is stated for every sequence of bytes. It holds where every
  byte is below \<open>0x80\<close> (\<open>percentEncode_ascii\<close> above; \<open>percentEncode_byte_spec\<close>: what the loop
  writes for a byte is what the contract says for it). It fails from \<open>0x80\<close> on, because the
  loop ranges over code points and not over bytes: the two bytes \<open>C3 A9\<close> (the letter e with
  an acute accent) give \<open>%E9\<close>, where the contract gives \<open>%C3%A9\<close>.
\<close>

theorem C3_two_byte_character:
  "percentEncode [CHR 0xC3, CHR 0xA9] = ''%E9'' \<and>
   concat (map specEncodeByte [CHR 0xC3, CHR 0xA9]) = ''%C3%A9''"
  by (simp add: percentEncode_eval specEncodeByte_def unreservedChars_def upperHexDigit_def
      char_of_nat_eq_iff)

text \<open>
  C5: for every input, \<open>percentEncode\<close> writes one rendering per code point of the range loop,
  for the byte \<open>byte(v)\<close>, which is \<open>v mod 256\<close>. So for a text (the UTF-8 encoding of a list of
  scalar values) the code points of the loop are the characters of the text, and every
  character, of one byte or of several, gives the rendering of its low byte alone.
\<close>

theorem C5_multibyte_truncation:
  "percentEncode source = concat (map (\<lambda>v. percentEncode_byte (char_of v)) (rangeRunes source)) \<and>
   (of_char (char_of v) :: nat) = v mod 256 \<and>
   (list_all scalarValue cps \<longrightarrow>
      rangeRunes (concat (map utf8 cps)) = cps \<and>
      percentEncode (concat (map utf8 cps)) = concat (map (\<lambda>cp. percentEncode_byte (char_of cp)) cps))"
  by (simp add: percentEncode_runes rangeRunes_utf8_text)

theorem C5_multibyte_truncation_witness:
  "list_all scalarValue [0x48, 0xE9, 0x141, 0x20AC] \<and>
   concat (map utf8 [0x48, 0xE9, 0x141, 0x20AC]) =
     [CHR 0x48, CHR 0xC3, CHR 0xA9, CHR 0xC5, CHR 0x81, CHR 0xE2, CHR 0x82, CHR 0xAC] \<and>
   percentEncode [CHR 0x48, CHR 0xC3, CHR 0xA9, CHR 0xC5, CHR 0x81, CHR 0xE2, CHR 0x82, CHR 0xAC] =
     ''H%E9A%AC''"
proof -
  have s: "list_all scalarValue [0x48, 0xE9, 0x141, 0x20AC]"
    by (simp add: scalarValue_def)
  have u: "concat (map utf8 [0x48, 0xE9, 0x141, 0x20AC]) =
     [CHR 0x48, CHR 0xC3, CHR 0xA9, CHR 0xC5, CHR 0x81, CHR 0xE2, CHR 0x82, CHR 0xAC]"
    by (simp add: utf8_def char_of_nat_eq_iff)
  have "concat (map (\<lambda>cp. percentEncode_byte (char_of cp)) [0x48, 0xE9, 0x141, 0x20AC :: nat]) = ''H%E9A%AC''"
    by (simp add: percentEncode_byte_def shouldPercentEncode_def hexMap_def less_eq_char_def
        char_of_nat_eq_iff)
  with C5_multibyte_truncation [of "[]" 0 "[0x48, 0xE9, 0x141, 0x20AC]"] s u show ?thesis
    by simp
qed

section \<open>Sorting\<close>

lemma queries_Swap [simp]:
  "queries (SearchQuery_Swap q i j) = (queries q)[i := queries q ! j, j := queries q ! i]"
  by (simp add: SearchQuery_Swap_def)

lemma mask_Swap [simp]: "mask_sq (SearchQuery_Swap q i j) = mask_sq q"
  by (simp add: SearchQuery_Swap_def)

lemma inner_mask [simp]: "mask_sq (insertionSort_inner data j) = mask_sq data"
  by (induction j arbitrary: data) simp_all

lemma inner_length [simp]:
  "length (queries (insertionSort_inner data j)) = length (queries data)"
  by (induction j arbitrary: data) simp_all

lemma inner_mset:
  "j < length (queries data) \<Longrightarrow> mset (queries (insertionSort_inner data j)) = mset (queries data)"
proof (induction j arbitrary: data)
  case 0
  then show ?case by simp
next
  case (Suc j)
  then have "mset ((queries data)[Suc j := queries data ! j, j := queries data ! Suc j]) = mset (queries data)"
    by (intro mset_swap) simp_all
  with Suc show ?case by simp
qed

lemma inner_drop:
  "j < length (queries data) \<Longrightarrow>
     drop (Suc j) (queries (insertionSort_inner data j)) = drop (Suc j) (queries data)"
proof (induction j arbitrary: data)
  case 0
  then show ?case by simp
next
  case (Suc j)
  show ?case
  proof (cases "SearchQuery_Less data (Suc j) j")
    case True
    let ?d = "SearchQuery_Swap data (Suc j) j"
    have "drop (Suc j) (queries (insertionSort_inner ?d j)) = drop (Suc j) (queries ?d)"
      using Suc.prems by (intro Suc.IH) simp
    then have "drop (Suc (Suc j)) (queries (insertionSort_inner ?d j)) = drop (Suc (Suc j)) (queries ?d)"
      by (metis drop_drop plus_1_eq_Suc)
    with True show ?thesis by simp
  next
    case False
    then show ?thesis by simp
  qed
qed

lemma mset_take_eq:
  assumes "mset ys = mset xs" and "drop n ys = drop n xs"
  shows "mset (take n ys) = mset (take n xs)"
proof -
  have "mset (take n ys) + mset (drop n ys) = mset (take n xs) + mset (drop n xs)"
    using assms(1) by (metis append_take_drop_id mset_append)
  with assms(2) show ?thesis by simp
qed

lemma inner_sorted:
  assumes "j < length (queries data)" and "sorted (map Name (take j (queries data)))"
  shows "sorted (map Name (take (Suc j) (queries (insertionSort_inner data j))))"
  using assms
proof (induction j arbitrary: data)
  case 0
  then show ?case by (simp add: take_Suc_conv_app_nth)
next
  case (Suc j)
  let ?xs = "queries data"
  from Suc.prems have len: "Suc j < length ?xs" by simp
  have tk: "take (Suc j) ?xs = take j ?xs @ [?xs ! j]"
    using len by (simp add: take_Suc_conv_app_nth)
  from Suc.prems(2) have pre: "sorted (map Name (take j ?xs))"
    and le: "\<forall>x\<in>set (take j ?xs). Name x \<le> Name (?xs ! j)"
    by (simp_all add: tk sorted_append)
  show ?case
  proof (cases "SearchQuery_Less data (Suc j) j")
    case True
    let ?d = "SearchQuery_Swap data (Suc j) j"
    let ?xs' = "queries ?d"
    let ?ys = "queries (insertionSort_inner ?d j)"
    have lt: "Name (?xs ! Suc j) < Name (?xs ! j)"
      using True by (simp add: SearchQuery_Less_def)
    have len': "j < length ?xs'" using len by simp
    have tk': "take j ?xs' = take j ?xs" by simp
    have s1: "sorted (map Name (take (Suc j) ?ys))"
      using len' pre by (intro Suc.IH) (simp_all only: tk')
    have dr: "drop (Suc j) ?ys = drop (Suc j) ?xs'"
      using len' by (rule inner_drop)
    have ms: "mset ?ys = mset ?xs'"
      using len' by (rule inner_mset)
    have leny: "length ?ys = length ?xs" by simp
    have "?ys ! Suc j = hd (drop (Suc j) ?ys)"
      using len leny by (simp add: hd_drop_conv_nth)
    also have "\<dots> = ?xs' ! Suc j"
      using len by (simp add: dr hd_drop_conv_nth)
    also have "\<dots> = ?xs ! j"
      using len by simp
    finally have last: "?ys ! Suc j = ?xs ! j" .
    have "mset (take (Suc j) ?ys) = mset (take (Suc j) ?xs')"
      using ms dr by (rule mset_take_eq)
    then have "set (take (Suc j) ?ys) = set (take (Suc j) ?xs')"
      by (rule mset_eq_setD)
    also have "take (Suc j) ?xs' = take j ?xs @ [?xs ! Suc j]"
      using len by (simp add: take_Suc_conv_app_nth)
    finally have st: "set (take (Suc j) ?ys) = set (take j ?xs) \<union> {?xs ! Suc j}"
      by simp
    have "\<forall>x\<in>set (take (Suc j) ?ys). Name x \<le> Name (?xs ! j)"
      using st le lt by auto
    moreover have "take (Suc (Suc j)) ?ys = take (Suc j) ?ys @ [?xs ! j]"
      using len leny last by (simp add: take_Suc_conv_app_nth)
    ultimately have "sorted (map Name (take (Suc (Suc j)) ?ys))"
      using s1 by (simp add: sorted_append)
    with True show ?thesis by simp
  next
    case False
    then have ge: "Name (?xs ! j) \<le> Name (?xs ! Suc j)"
      by (simp add: SearchQuery_Less_def)
    have "take (Suc (Suc j)) ?xs = take (Suc j) ?xs @ [?xs ! Suc j]"
      using len by (simp add: take_Suc_conv_app_nth)
    moreover have "\<forall>x\<in>set (take (Suc j) ?xs). Name x \<le> Name (?xs ! Suc j)"
      using le ge by (auto simp: tk)
    ultimately have "sorted (map Name (take (Suc (Suc j)) ?xs))"
      using Suc.prems(2) by (simp add: sorted_append)
    with False show ?thesis by simp
  qed
qed


lemma outer_props:
  assumes "0 < i" and "i \<le> b" and "b = length (queries data)"
    and "sorted (map Name (take i (queries data)))"
  shows "sorted (map Name (queries (insertionSort_outer data i b))) \<and>
         mset (queries (insertionSort_outer data i b)) = mset (queries data) \<and>
         mask_sq (insertionSort_outer data i b) = mask_sq data"
  using assms
proof (induction data i b rule: insertionSort_outer.induct)
  case (1 data i b)
  show ?case
  proof (cases "i < b")
    case True
    let ?d = "insertionSort_inner data i"
    have lt: "i < length (queries data)" using True "1.prems" by simp
    have s: "sorted (map Name (take (i + 1) (queries ?d)))"
      using inner_sorted [OF lt "1.prems"(4)] by simp
    have m: "mset (queries ?d) = mset (queries data)"
      using lt by (rule inner_mset)
    have "sorted (map Name (queries (insertionSort_outer ?d (i + 1) b))) \<and>
          mset (queries (insertionSort_outer ?d (i + 1) b)) = mset (queries ?d) \<and>
          mask_sq (insertionSort_outer ?d (i + 1) b) = mask_sq ?d"
      using True "1.prems" s by (intro "1.IH") simp_all
    moreover have "insertionSort_outer data i b = insertionSort_outer ?d (i + 1) b"
      using True by (subst insertionSort_outer.simps) simp
    ultimately show ?thesis using m by simp
  next
    case False
    then have "insertionSort_outer data i b = data"
      by (subst insertionSort_outer.simps) simp
    moreover from False "1.prems" have "take i (queries data) = queries data"
      by simp
    ultimately show ?thesis using "1.prems"(4) by simp
  qed
qed

lemma outer_short:
  "length (queries data) \<le> Suc 0 \<Longrightarrow>
     insertionSort_outer data (Suc 0) (length (queries data)) = data"
  by (subst insertionSort_outer.simps) simp

lemma Sort_props:
  "sorted (map Name (queries (SearchQuery_Sort q))) \<and>
   mset (queries (SearchQuery_Sort q)) = mset (queries q) \<and>
   mask_sq (SearchQuery_Sort q) = mask_sq q"
proof (cases "length (queries q) \<le> 1")
  case True
  then have "sorted (map Name (queries q))"
    by (cases "queries q") simp_all
  with True show ?thesis
    by (simp add: SearchQuery_Sort_def sort_Sort_def SearchQuery_Len_def outer_short)
next
  case False
  then have "sorted (map Name (take 1 (queries q)))"
    by (cases "queries q") simp_all
  with False outer_props [of 1 "length (queries q)" q] show ?thesis
    by (simp add: SearchQuery_Sort_def sort_Sort_def SearchQuery_Len_def)
qed

text \<open>
  C8: after \<open>Sort\<close> the names are in ascending order (byte-wise, not strictly: equal names may
  follow each other), and the elements are those of before the call, each as often as before.
\<close>

theorem C8_sort_postcondition:
  "sorted (map Name (queries (SearchQuery_Sort q))) \<and>
   mset (queries (SearchQuery_Sort q)) = mset (queries q)"
  using Sort_props [of q] by simp

lemma Sort_length [simp]: "length (queries (SearchQuery_Sort q)) = length (queries q)"
  using Sort_props [of q] by (metis size_mset)

theorem C8_sort_postcondition_witness:
  "queries (SearchQuery_Sort
      \<lparr>queries = [\<lparr>Name = ''term'', Value = ''bar''\<rparr>, \<lparr>Name = ''limit'', Value = ''1''\<rparr>,
                  \<lparr>Name = ''ll'', Value = ''0,0''\<rparr>], mask_sq = 131\<rparr>) =
     [\<lparr>Name = ''limit'', Value = ''1''\<rparr>, \<lparr>Name = ''ll'', Value = ''0,0''\<rparr>,
      \<lparr>Name = ''term'', Value = ''bar''\<rparr>] \<and>
   sorted [''limit'', ''ll'', ''term'']"
proof -
  have "queries (SearchQuery_Sort
      \<lparr>queries = [\<lparr>Name = ''term'', Value = ''bar''\<rparr>, \<lparr>Name = ''limit'', Value = ''1''\<rparr>,
                  \<lparr>Name = ''ll'', Value = ''0,0''\<rparr>], mask_sq = 131\<rparr>) =
     [\<lparr>Name = ''limit'', Value = ''1''\<rparr>, \<lparr>Name = ''ll'', Value = ''0,0''\<rparr>,
      \<lparr>Name = ''term'', Value = ''bar''\<rparr>]"
    by (simp add: SearchQuery_Sort_def sort_Sort_def SearchQuery_Len_def insertionSort_outer.simps
        SearchQuery_Less_def numeral_2_eq_2)
  with C8_sort_postcondition [of "\<lparr>queries = [\<lparr>Name = ''term'', Value = ''bar''\<rparr>,
      \<lparr>Name = ''limit'', Value = ''1''\<rparr>, \<lparr>Name = ''ll'', Value = ''0,0''\<rparr>], mask_sq = 131\<rparr>"]
  show ?thesis by simp
qed

section \<open>Signing a query\<close>

lemma queries_Append [simp]:
  "queries (SearchQuery_Append q n v) = queries q @ [\<lparr>Name = n, Value = v\<rparr>]"
  by (simp add: SearchQuery_Append_def)

lemma nonce_length: "length (nonce rnd n) = n"
  by (simp add: nonce_def)

lemma nonceLength_pos: "0 < nonceLength"
  by (simp add: nonceLength_def nonceCharacters_def)

lemma nonce_alphabet: "set (nonce rnd n) \<subseteq> set nonceCharacters"
proof
  fix c assume "c \<in> set (nonce rnd n)"
  then obtain i where "c = nonceCharacters ! (rnd i mod nonceLength)"
    by (auto simp: nonce_def)
  moreover have "rnd i mod nonceLength < length nonceCharacters"
    using nonceLength_pos by (simp add: nonceLength_def)
  ultimately show "c \<in> set nonceCharacters"
    by simp
qed

text \<open>
  C4: \<open>Sign\<close> appends the five elements \<open>oauth_consumer_key\<close>, \<open>oauth_nonce\<close> (thirty characters
  of the alphabet), \<open>oauth_signature_method\<close>, \<open>oauth_timestamp\<close> and \<open>oauth_token\<close>, sorts the
  container, signs the base string \<open>method & percentEncode(url) & percentEncode(String())\<close> of
  the sorted container with the hash key, and appends \<open>oauth_signature\<close> (the digest in base64,
  percent-encoded) behind the sorted elements. So the last element is \<open>oauth_signature\<close>, there
  are six elements more than before, and the mask is as before.
\<close>

theorem C4_sign:
  "(let appended = elements\<lparr>queries := queries elements @ oauthElements rnd now yoa\<rparr>;
        sorted5 = SearchQuery_Sort appended;
        base = httpMethod @ ''&'' @ percentEncode url @ ''&'' @ percentEncode (SearchQuery_String sorted5);
        signed = Sign hmac encode rnd now yoa httpMethod url elements
    in queries signed =
         queries sorted5 @
           [\<lparr>Name = ''oauth_signature'',
              Value = percentEncode (encode (hmac (hashKey yoa) base))\<rparr>] \<and>
       sorted (map Name (queries sorted5)) \<and>
       mset (queries sorted5) = mset (queries elements) + mset (oauthElements rnd now yoa) \<and>
       Name (last (queries signed)) = ''oauth_signature'' \<and>
       length (queries signed) = length (queries elements) + 6 \<and>
       mask_sq signed = mask_sq elements)"
proof -
  define appended where "appended = elements\<lparr>queries := queries elements @ oauthElements rnd now yoa\<rparr>"
  have e5: "SearchQuery_Append (SearchQuery_Append (SearchQuery_Append (SearchQuery_Append
      (SearchQuery_Append elements ''oauth_consumer_key'' (ConsumerKey yoa))
        ''oauth_nonce'' (nonce rnd 30)) ''oauth_signature_method'' ''HMAC-SHA1'')
        ''oauth_timestamp'' (Itoa now)) ''oauth_token'' (Token yoa) = appended"
    by (simp add: appended_def SearchQuery_Append_def oauthElements_def)
  have s: "Sign hmac encode rnd now yoa httpMethod url elements =
      SearchQuery_Append (SearchQuery_Sort appended) ''oauth_signature''
        (percentEncode (encode (hmac (hashKey yoa)
           (httpMethod @ ''&'' @ percentEncode url @ ''&'' @
            percentEncode (SearchQuery_String (SearchQuery_Sort appended))))))"
    unfolding Sign_def Let_def e5 by simp
  have "length (queries (SearchQuery_Sort appended)) = length (queries elements) + 5"
    by (simp add: appended_def oauthElements_def)
  moreover have "mset (queries (SearchQuery_Sort appended)) =
      mset (queries elements) + mset (oauthElements rnd now yoa)"
    using Sort_props [of appended] by (simp add: appended_def)
  moreover have "mask_sq (SearchQuery_Sort appended) = mask_sq elements"
    using Sort_props [of appended] by (simp add: appended_def)
  moreover have "sorted (map Name (queries (SearchQuery_Sort appended)))"
    using Sort_props [of appended] by simp
  ultimately show ?thesis
    unfolding Let_def appended_def [symmetric] s by simp
qed


text \<open>An example, with stand-ins for the digest and for base64.\<close>

theorem C4_sign_witness:
  "queries (Sign (\<lambda>key message. key) (\<lambda>digest. digest) (\<lambda>i. i) 1446249600
      \<lparr>ConsumerKey = ''ck'', Token = ''tk'', hashKey = ''cs&ts''\<rparr> ''GET'' ''http://api.yelp.com/v2/search''
      \<lparr>queries = [\<lparr>Name = ''term'', Value = ''bar''\<rparr>], mask_sq = 1\<rparr>) =
     [\<lparr>Name = ''oauth_consumer_key'', Value = ''ck''\<rparr>,
      \<lparr>Name = ''oauth_nonce'', Value = ''abcdefghijklmnopqrstuvwxyzABCD''\<rparr>,
      \<lparr>Name = ''oauth_signature_method'', Value = ''HMAC-SHA1''\<rparr>,
      \<lparr>Name = ''oauth_timestamp'', Value = ''1446249600''\<rparr>,
      \<lparr>Name = ''oauth_token'', Value = ''tk''\<rparr>,
      \<lparr>Name = ''term'', Value = ''bar''\<rparr>,
      \<lparr>Name = ''oauth_signature'', Value = ''cs%26ts''\<rparr>]"
proof -
  let ?yoa = "\<lparr>ConsumerKey = ''ck'', Token = ''tk'', hashKey = ''cs&ts''\<rparr>"
  let ?q = "\<lparr>queries = [\<lparr>Name = ''term'', Value = ''bar''\<rparr>], mask_sq = 1\<rparr>"
  have n: "nonce (\<lambda>i. i) 30 = ''abcdefghijklmnopqrstuvwxyzABCD''"
    by (simp add: nonce_def nonceLength_def nonceCharacters_def
        upt_rec [of _ "numeral n" for n] upt_rec [of _ "Suc n" for n])
  have t: "Itoa 1446249600 = ''1446249600''"
    by (simp add: Itoa_def digitsOf.simps digitChar_def)
  have o: "oauthElements (\<lambda>i. i) 1446249600 ?yoa =
     [\<lparr>Name = ''oauth_consumer_key'', Value = ''ck''\<rparr>,
      \<lparr>Name = ''oauth_nonce'', Value = ''abcdefghijklmnopqrstuvwxyzABCD''\<rparr>,
      \<lparr>Name = ''oauth_signature_method'', Value = ''HMAC-SHA1''\<rparr>,
      \<lparr>Name = ''oauth_timestamp'', Value = ''1446249600''\<rparr>,
      \<lparr>Name = ''oauth_token'', Value = ''tk''\<rparr>]"
    by (simp add: oauthElements_def n t)
  have s: "queries (SearchQuery_Sort (?q\<lparr>queries := queries ?q @ oauthElements (\<lambda>i. i) 1446249600 ?yoa\<rparr>)) =
     [\<lparr>Name = ''oauth_consumer_key'', Value = ''ck''\<rparr>,
      \<lparr>Name = ''oauth_nonce'', Value = ''abcdefghijklmnopqrstuvwxyzABCD''\<rparr>,
      \<lparr>Name = ''oauth_signature_method'', Value = ''HMAC-SHA1''\<rparr>,
      \<lparr>Name = ''oauth_timestamp'', Value = ''1446249600''\<rparr>,
      \<lparr>Name = ''oauth_token'', Value = ''tk''\<rparr>,
      \<lparr>Name = ''term'', Value = ''bar''\<rparr>]"
    unfolding o
    by (simp add: SearchQuery_Sort_def sort_Sort_def SearchQuery_Len_def insertionSort_outer.simps
        SearchQuery_Less_def eval_nat_numeral)
  have p: "percentEncode ''cs&ts'' = ''cs%26ts''"
    by (simp add: percentEncode_eval)
  from C4_sign [where hmac = "\<lambda>key message. key" and encode = "\<lambda>digest. digest"
      and rnd = "\<lambda>i. i" and now = 1446249600 and yoa = ?yoa and httpMethod = "''GET''"
      and url = "''http://api.yelp.com/v2/search''" and elements = ?q]
  show ?thesis
    unfolding Let_def s by (simp add: p)
qed


end
